theory Spec2Isabelle
  imports Main "HOL-Library.Word"
begin

unbundle bit_operations_syntax

section \<open>The assembler for the 32-bit instruction set, embedded from its TypeScript source\<close>

text \<open>
  The repository holds the assembler in successive variants of one program. The fullest
  one (parse a line, assemble its fields, pack them into a number) is the file whose
  functions carry their plain names below; the variant \<^verbatim>\<open>asm374.ts\<close>, which has no packing
  step but checks the bit count of every line in its \<^verbatim>\<open>main\<close>, is embedded with the
  prefix \<open>asm374_\<close> where its code differs.

  Modelling decisions, all forced by JavaScript:
  \<^item> a JavaScript number is a mathematical integer, or \<open>NaN\<close>, or the value
    \<open>undefined\<close> that a lookup of an absent table key stores in a field. JavaScript's
    numbers are exact on integers below \<open>2 ^ 53\<close> in magnitude and round beyond; the
    model does not round, so it is the code's behaviour only as long as the numbers stay
    in that range. Every general statement below that lets a number grow carries the
    bound as a hypothesis: a parsed literal is below \<open>2 ^ 53\<close>, a packed field list has at
    most 53 bits (\<open>bitsToNumber_below_2_53\<close>), the assembler's 32-bit words among them.
    \<open>-0\<close> is identified with \<open>0\<close> (they compare and add alike in the code below);
  \<^item> a string is a list of 8-bit characters, which coincides with JavaScript's UTF-16
    strings on ASCII input only, and white space is the ASCII white space (JavaScript
    also skips U+00A0, U+FEFF and the other Unicode spaces). Every general statement
    below about the characters of a token or a file is restricted to ASCII (\<open>isAscii\<close>);
  \<^item> \<^verbatim>\<open>params[i]\<close> beyond the end of the array is \<open>undefined\<close> (\<open>None\<close>); calling a
    string method on it, or indexing it, throws a \<open>TypeError\<close>, the only exception this
    program can throw;
  \<^item> \<^verbatim>\<open>console.warn\<close> is the list of warning lines a function returns next to its value.

  Names are the source's, except where Isabelle reserves them: the field \<^verbatim>\<open>value\<close> is
  \<open>val\<close>, the method \<^verbatim>\<open>includes\<close> is \<open>str_includes\<close>, \<^verbatim>\<open>params[i]\<close> is \<open>at_index params i\<close>,
  and a local \<^verbatim>\<open>length\<close> is \<open>len\<close>.
\<close>

subsection \<open>Values, errors and records\<close>

datatype number = Num int | NaN | Undefined

datatype error = TypeError

record field =
  bits :: nat
  val :: number

record address =
  regField :: field
  immediateOffset :: number

record instruction =
  op :: string
  params :: "string list"

definition thenE :: "error + 'a \<Rightarrow> ('a \<Rightarrow> error + 'b) \<Rightarrow> error + 'b" where
  "thenE r k = (case r of Inl e \<Rightarrow> Inl e | Inr x \<Rightarrow> k x)"

subsection \<open>The string methods of JavaScript that the program calls\<close>

definition isWhiteSpace :: "char \<Rightarrow> bool" where
  "isWhiteSpace c = (c \<in> set [CHR 0x09, CHR 0x0A, CHR 0x0B, CHR 0x0C, CHR 0x0D, CHR 0x20])"

definition trim :: "string \<Rightarrow> string" where
  "trim s = rev (dropWhile isWhiteSpace (rev (dropWhile isWhiteSpace s)))"

definition str_includes :: "string \<Rightarrow> char \<Rightarrow> bool" where
  "str_includes s c = (c \<in> set s)"

fun indexOf :: "string \<Rightarrow> char \<Rightarrow> int" where
  "indexOf [] c = - 1"
| "indexOf (x # xs) c =
     (if x = c then 0 else (let r = indexOf xs c in if r = - 1 then - 1 else r + 1))"

definition substr :: "string \<Rightarrow> int \<Rightarrow> int \<Rightarrow> string" where
  "substr s start len =
     (let size = int (length s);
          st = (if start < 0 then max (size + start) 0 else min start size);
          en = min (st + min (max len 0) size) size
      in if en \<le> st then [] else take (nat (en - st)) (drop (nat st) s))"

definition substr_from :: "string \<Rightarrow> int \<Rightarrow> string" where
  "substr_from s start = substr s start (int (length s))"

text \<open>\<^verbatim>\<open>s.replace("\r", "")\<close> with a string pattern removes the first occurrence only.\<close>

definition replace_first_CR :: "string \<Rightarrow> string" where
  "replace_first_CR s = remove1 (CHR 0x0D) s"

fun split :: "string \<Rightarrow> char \<Rightarrow> string list" where
  "split [] sep = [[]]"
| "split (c # cs) sep =
     (if c = sep then [] # split cs sep
      else (case split cs sep of [] \<Rightarrow> [[c]] | w # ws \<Rightarrow> (c # w) # ws))"

subsection \<open>\<^verbatim>\<open>Number.parseInt\<close>\<close>

text \<open>
  The language's own function, after ECMA-262: skip leading white space, read a sign,
  for radix 16 or no radix skip a leading \<^verbatim>\<open>0x\<close>/\<^verbatim>\<open>0X\<close> (which makes the radix 16), take
  the longest run of digits of the radix, and return \<open>NaN\<close> when that run is empty.
  Radix \<open>0\<close> stands for an omitted radix.
\<close>

definition digitVal :: "char \<Rightarrow> nat option" where
  "digitVal c =
     (let n = (of_char c :: nat)
      in if 48 \<le> n \<and> n \<le> 57 then Some (n - 48)
         else if 97 \<le> n \<and> n \<le> 122 then Some (n - 87)
         else if 65 \<le> n \<and> n \<le> 90 then Some (n - 55)
         else None)"

definition isDigit :: "nat \<Rightarrow> char \<Rightarrow> bool" where
  "isDigit R c = (case digitVal c of None \<Rightarrow> False | Some d \<Rightarrow> d < R)"

definition digitsValue :: "nat \<Rightarrow> string \<Rightarrow> nat" where
  "digitsValue R Z = foldl (\<lambda>a c. a * R + (case digitVal c of None \<Rightarrow> 0 | Some d \<Rightarrow> d)) 0 Z"

definition parseInt :: "string \<Rightarrow> nat \<Rightarrow> number" where
  "parseInt string radix =
     (let S = dropWhile isWhiteSpace string;
          sign = (if take 1 S = ''-'' then - 1 else 1 :: int);
          S1 = (if take 1 S = ''+'' \<or> take 1 S = ''-'' then drop 1 S else S);
          stripPrefix = (radix = 0 \<or> radix = 16);
          hasPrefix = (stripPrefix \<and> (take 2 S1 = ''0x'' \<or> take 2 S1 = ''0X''));
          S2 = (if hasPrefix then drop 2 S1 else S1);
          R = (if hasPrefix then 16 else if radix = 0 then 10 else radix);
          Z = takeWhile (isDigit R) S2
      in if radix \<noteq> 0 \<and> (radix < 2 \<or> 36 < radix) then NaN
         else if Z = [] then NaN
         else Num (sign * int (digitsValue R Z)))"

text \<open>\<^verbatim>\<open>Number.parseInt(x)\<close> on a possibly undefined argument converts it to a string first.\<close>

definition parseInt_any :: "string option \<Rightarrow> nat \<Rightarrow> number" where
  "parseInt_any x radix = parseInt (case x of None \<Rightarrow> ''undefined'' | Some s \<Rightarrow> s) radix"

subsection \<open>Operand resolvers\<close>

definition parseImmediate :: "string option \<Rightarrow> error + number" where
  "parseImmediate x =
     (case x of
        None \<Rightarrow> Inl TypeError
      | Some str \<Rightarrow>
          if take 1 str = ''$'' then Inr (parseInt (substr_from str 1) 16)
          else Inr (parseInt str 10))"

definition fieldFromRegister :: "string option \<Rightarrow> error + field" where
  "fieldFromRegister x =
     (case x of
        None \<Rightarrow> Inl TypeError
      | Some reg \<Rightarrow> Inr \<lparr>bits = 4, val = parseInt (substr_from reg 1) 0\<rparr>)"

definition parseAddress :: "string option \<Rightarrow> error + address" where
  "parseAddress x =
     (case x of
        None \<Rightarrow> Inl TypeError
      | Some param \<Rightarrow>
          if str_includes param (CHR ''('') then
            thenE (parseImmediate (Some param)) (\<lambda>immediateOffset.
              let startIndex = indexOf param (CHR ''('') + 1;
                  stopIndex = indexOf param (CHR '')'');
                  len = stopIndex - startIndex
              in thenE (fieldFromRegister (Some (substr param startIndex len))) (\<lambda>regField.
                   Inr \<lparr>regField = regField, immediateOffset = immediateOffset\<rparr>))
          else
            thenE (parseImmediate (Some param)) (\<lambda>immediateOffset.
              Inr \<lparr>regField = \<lparr>bits = 4, val = Num 0\<rparr>, immediateOffset = immediateOffset\<rparr>))"

subsection \<open>The tables\<close>

definition OP_TABLE :: "(string \<times> int) list" where
  "OP_TABLE =
     [(''ld'', 0), (''ldi'', 1), (''st'', 2), (''add'', 3), (''sub'', 4), (''shr'', 5),
      (''shl'', 6), (''ror'', 7), (''rol'', 8), (''and'', 9), (''or'', 10), (''addi'', 11),
      (''andi'', 12), (''ori'', 13), (''mul'', 14), (''div'', 15), (''neg'', 16), (''not'', 17),
      (''brzr'', 18), (''brnz'', 18), (''brmi'', 18), (''brpl'', 18),
      (''jr'', 19), (''jal'', 20), (''in'', 21), (''out'', 22), (''mfhi'', 23), (''mflo'', 24),
      (''nop'', 25), (''halt'', 26)]"

definition BR_TABLE :: "(string \<times> int) list" where
  "BR_TABLE = [(''brzr'', 0), (''brnz'', 1), (''brpl'', 2), (''brmi'', 3)]"

text \<open>
  \<^verbatim>\<open>TABLE[key]\<close>: the stored number, or \<open>undefined\<close> for a key the table does not hold. (A
  key inherited from the object prototype yields a function instead; the assembler reads
  the table with such a key only on its way to the \<^verbatim>\<open>default\<close> branch, which
  discards the field.)
\<close>

definition lookup :: "(string \<times> int) list \<Rightarrow> string \<Rightarrow> number" where
  "lookup table key = (case map_of table key of None \<Rightarrow> Undefined | Some v \<Rightarrow> Num v)"

definition at_index :: "string list \<Rightarrow> nat \<Rightarrow> string option" where
  "at_index ps i = (if i < length ps then Some (ps ! i) else None)"

subsection \<open>The encoder\<close>

definition assembleInstruction :: "instruction \<Rightarrow> string list \<times> (error + field list)" where
  "assembleInstruction instruction =
     (let op = op instruction; params = params instruction;
          fields = [\<lparr>bits = 5, val = lookup OP_TABLE (instruction.op instruction)\<rparr>]
      in
      if op \<in> set [''ld'', ''ldi''] then
        ([], thenE (fieldFromRegister (at_index params 0)) (\<lambda>ra.
             thenE (parseAddress (at_index params 1)) (\<lambda>address.
               let rb = regField address;
                   immediateField = \<lparr>bits = 19, val = immediateOffset address\<rparr>
               in Inr (fields @ [ra] @ [rb] @ [immediateField]))))
      else if op = ''st'' then
        ([], thenE (parseAddress (at_index params 0)) (\<lambda>storeAddress.
             let rb = regField storeAddress
             in thenE (fieldFromRegister (at_index params 1)) (\<lambda>ra.
                  Inr (fields @ [ra] @ [rb]
                         @ [\<lparr>bits = 19, val = immediateOffset storeAddress\<rparr>]))))
      else if op \<in> set [''add'', ''sub'', ''and'', ''or'', ''shr'', ''shl'', ''ror'', ''rol''] then
        ([], thenE (fieldFromRegister (at_index params 0)) (\<lambda>ra.
             thenE (fieldFromRegister (at_index params 1)) (\<lambda>rb.
             thenE (fieldFromRegister (at_index params 2)) (\<lambda>rc.
               Inr (fields @ [ra] @ [rb] @ [rc] @ [\<lparr>bits = 15, val = Num 0\<rparr>])))))
      else if op \<in> set [''addi'', ''andi'', ''ori''] then
        ([], thenE (fieldFromRegister (at_index params 0)) (\<lambda>ra.
             thenE (fieldFromRegister (at_index params 1)) (\<lambda>rb.
             thenE (parseImmediate (at_index params 2)) (\<lambda>v.
               let c = \<lparr>bits = 19, val = v\<rparr>
               in Inr (fields @ [ra] @ [rb] @ [c])))))
      else if op \<in> set [''mul'', ''div'', ''neg'', ''not''] then
        ([], thenE (fieldFromRegister (at_index params 0)) (\<lambda>ra.
             thenE (fieldFromRegister (at_index params 1)) (\<lambda>rb.
               Inr (fields @ [ra] @ [rb] @ [\<lparr>bits = 19, val = Num 0\<rparr>]))))
      else if op \<in> set [''brmi'', ''brpl'', ''brzr'', ''brnz''] then
        ([], thenE (fieldFromRegister (at_index params 0)) (\<lambda>ra.
             let br_val = lookup BR_TABLE op
             in thenE (parseImmediate (at_index params 1)) (\<lambda>v.
                  let immediateField = \<lparr>bits = 19, val = v\<rparr>
                  in Inr (fields @ [ra] @ [\<lparr>bits = 2, val = br_val\<rparr>]
                            @ [\<lparr>bits = 2, val = Num 0\<rparr>] @ [immediateField]))))
      else if op \<in> set [''jr'', ''jal'', ''in'', ''out'', ''mfhi'', ''mflo''] then
        ([], thenE (fieldFromRegister (at_index params 0)) (\<lambda>ra.
               Inr (fields @ [ra] @ [\<lparr>bits = 23, val = Num 0\<rparr>])))
      else if op \<in> set [''nop'', ''halt''] then
        ([], Inr (fields @ [\<lparr>bits = 27, val = Num 0\<rparr>]))
      else
        ([''Unrecognized opcode: '' @ instruction.op instruction], Inr []))"

subsection \<open>The line parser\<close>

definition parseInstruction :: "string \<Rightarrow> instruction" where
  "parseInstruction line =
     (let startIndex = (if str_includes line (CHR '':'') then indexOf line (CHR '':'') + 1 else 0);
          stopIndex = (if str_includes line (CHR '';'') then indexOf line (CHR '';'')
                       else int (length line));
          len = stopIndex - startIndex;
          filtered = trim (replace_first_CR (substr line startIndex len));
          spaceIndex0 = indexOf filtered (CHR '' '');
          spaceIndex = (if spaceIndex0 = - 1 then int (length filtered) else spaceIndex0);
          op = substr filtered 0 spaceIndex;
          right_side = trim (substr_from filtered spaceIndex);
          params = map trim (split right_side (CHR '',''))
      in \<lparr>op = op, params = params\<rparr>)"

subsection \<open>Packing\<close>

fun ge0 :: "number \<Rightarrow> bool" where
  "ge0 (Num v) = (0 \<le> v)"
| "ge0 NaN = False"
| "ge0 Undefined = False"

fun num_add :: "number \<Rightarrow> number \<Rightarrow> number" where
  "num_add (Num a) (Num b) = Num (a + b)"
| "num_add _ _ = NaN"

fun num_mul :: "number \<Rightarrow> number \<Rightarrow> number" where
  "num_mul (Num a) (Num b) = Num (a * b)"
| "num_mul _ _ = NaN"

fun bitsToNumber_loop :: "field list \<Rightarrow> nat \<Rightarrow> number \<Rightarrow> number" where
  "bitsToNumber_loop [] i num = num"
| "bitsToNumber_loop (field # rest) i num =
     (let unsigned_val =
            (if ge0 (val field) then val field
             else num_add (Num (2 ^ bits field)) (val field));
          shifted_val = num_mul unsigned_val (Num (2 ^ i))
      in bitsToNumber_loop rest (i + bits field) (num_add num shifted_val))"

definition bitsToNumber :: "field list \<Rightarrow> number" where
  "bitsToNumber fields_des =
     (let fields_asc = rev fields_des in bitsToNumber_loop fields_asc 0 (Num 0))"

subsection \<open>The program: every line of the file parsed, assembled and packed\<close>

text \<open>
  \<^verbatim>\<open>instructions.map(assembleInstruction)\<close>: the instructions are assembled in order; the
  first exception ends the run, with the warnings written so far left on the console.
\<close>

fun assembleAll :: "instruction list \<Rightarrow> string list \<times> (error + field list list)" where
  "assembleAll [] = ([], Inr [])"
| "assembleAll (i # rest) =
     (case assembleInstruction i of
        (w, Inl e) \<Rightarrow> (w, Inl e)
      | (w, Inr fs) \<Rightarrow>
          (case assembleAll rest of
             (ws, Inl e) \<Rightarrow> (w @ ws, Inl e)
           | (ws, Inr fss) \<Rightarrow> (w @ ws, Inr (fs # fss))))"

definition lineNoComment :: "string \<Rightarrow> string" where
  "lineNoComment line =
     (let commentIndex = indexOf line (CHR '';'')
      in if commentIndex = - 1 then line else substr line 0 commentIndex)"

text \<open>
  \<^verbatim>\<open>main\<close>, with the text of the file it reads as its argument. It returns the warnings
  and either the uncaught exception or, for every line, the pair that the report loop
  prints: the line without its comment and its packed number (the rendering of the
  number in binary and the header line are left out).
\<close>

definition main :: "string \<Rightarrow> string list \<times> (error + (string \<times> number) list)" where
  "main buff =
     (let lines = split buff (CHR 0x0A);
          instructions = map parseInstruction lines
      in case assembleAll instructions of
           (warned, Inl e) \<Rightarrow> (warned, Inl e)
         | (warned, Inr assembled) \<Rightarrow>
             (let compiled = map bitsToNumber assembled
              in (warned,
                  Inr (map (\<lambda>i. (lineNoComment (lines ! i), compiled ! i)) [0..<length lines]))))"

subsection \<open>The variant \<^verbatim>\<open>asm374.ts\<close>\<close>

text \<open>
  Its \<^verbatim>\<open>fieldFromRegister\<close>, \<^verbatim>\<open>parseInstruction\<close> and tables are the ones above, letter for
  letter. It has no \<^verbatim>\<open>parseImmediate\<close>: numbers are read by \<^verbatim>\<open>Number.parseInt\<close> with no
  radix.
\<close>

definition asm374_parseAddress :: "string option \<Rightarrow> error + address" where
  "asm374_parseAddress x =
     (case x of
        None \<Rightarrow> Inl TypeError
      | Some param \<Rightarrow>
          if str_includes param (CHR ''('') then
            (let immediateOffset = parseInt param 0;
                 startIndex = indexOf param (CHR ''('') + 1;
                 stopIndex = indexOf param (CHR '')'');
                 len = stopIndex - startIndex
             in thenE (fieldFromRegister (Some (substr param startIndex len))) (\<lambda>regField.
                  Inr \<lparr>regField = regField, immediateOffset = immediateOffset\<rparr>))
          else
            (let parseFrom = (if take 1 param = ''$'' then substr_from param 1 else param);
                 immediateOffset = parseInt parseFrom 0
             in Inr \<lparr>regField = \<lparr>bits = 4, val = Num 0\<rparr>, immediateOffset = immediateOffset\<rparr>))"

definition asm374_assembleInstruction ::
  "instruction \<Rightarrow> string list \<times> (error + field list)" where
  "asm374_assembleInstruction instruction =
     (let op = op instruction; params = params instruction;
          fields = [\<lparr>bits = 5, val = lookup OP_TABLE (instruction.op instruction)\<rparr>]
      in
      if op \<in> set [''ld'', ''ldi''] then
        ([], thenE (fieldFromRegister (at_index params 0)) (\<lambda>ra.
             thenE (asm374_parseAddress (at_index params 1)) (\<lambda>address.
               let rb = regField address;
                   immediateField = \<lparr>bits = 19, val = immediateOffset address\<rparr>
               in Inr (fields @ [ra] @ [rb] @ [immediateField]))))
      else if op = ''st'' then
        ([], thenE (asm374_parseAddress (at_index params 0)) (\<lambda>storeAddress.
             let rb = regField storeAddress
             in thenE (fieldFromRegister (at_index params 1)) (\<lambda>ra.
                  Inr (fields @ [ra] @ [rb] @ [\<lparr>bits = 19, val = Num 0\<rparr>]))))
      else if op \<in> set [''add'', ''sub'', ''and'', ''or'', ''shr'', ''shl'', ''ror'', ''rol''] then
        ([], thenE (fieldFromRegister (at_index params 0)) (\<lambda>ra.
             thenE (fieldFromRegister (at_index params 1)) (\<lambda>rb.
             thenE (fieldFromRegister (at_index params 2)) (\<lambda>rc.
               Inr (fields @ [ra] @ [rb] @ [rc] @ [\<lparr>bits = 15, val = Num 0\<rparr>])))))
      else if op \<in> set [''addi'', ''andi'', ''ori''] then
        ([], thenE (fieldFromRegister (at_index params 0)) (\<lambda>ra.
             thenE (fieldFromRegister (at_index params 1)) (\<lambda>rb.
               let c = \<lparr>bits = 19, val = parseInt_any (at_index params 2) 0\<rparr>
               in Inr (fields @ [ra] @ [rb] @ [c]))))
      else if op \<in> set [''mul'', ''div'', ''neg'', ''not''] then
        ([], thenE (fieldFromRegister (at_index params 0)) (\<lambda>ra.
             thenE (fieldFromRegister (at_index params 1)) (\<lambda>rb.
               Inr (fields @ [ra] @ [rb] @ [\<lparr>bits = 19, val = Num 0\<rparr>]))))
      else if op \<in> set [''brmi'', ''brpl'', ''brzr'', ''brnz''] then
        ([], let br_val = lookup BR_TABLE op;
                 immediateField = \<lparr>bits = 19, val = parseInt_any (at_index params 0) 0\<rparr>
             in Inr (fields @ [\<lparr>bits = 4, val = Num 0\<rparr>] @ [\<lparr>bits = 2, val = br_val\<rparr>]
                       @ [immediateField]))
      else if op \<in> set [''jr'', ''jal'', ''in'', ''out'', ''mfhi'', ''mflo''] then
        ([], thenE (fieldFromRegister (at_index params 0)) (\<lambda>ra.
               Inr (fields @ [ra] @ [\<lparr>bits = 23, val = Num 0\<rparr>])))
      else if op \<in> set [''nop'', ''halt''] then
        ([], Inr (fields @ [\<lparr>bits = 27, val = Num 0\<rparr>]))
      else
        ([''Unrecognized opcode: '' @ instruction.op instruction], Inr []))"

fun asm374_assembleAll :: "instruction list \<Rightarrow> string list \<times> (error + field list list)" where
  "asm374_assembleAll [] = ([], Inr [])"
| "asm374_assembleAll (i # rest) =
     (case asm374_assembleInstruction i of
        (w, Inl e) \<Rightarrow> (w, Inl e)
      | (w, Inr fs) \<Rightarrow>
          (case asm374_assembleAll rest of
             (ws, Inl e) \<Rightarrow> (w @ ws, Inl e)
           | (ws, Inr fss) \<Rightarrow> (w @ ws, Inr (fs # fss))))"

text \<open>The bit count that the report loop of this variant takes of every line.\<close>

definition bitSum :: "field list \<Rightarrow> nat" where
  "bitSum fs = foldl (\<lambda>bitSum field. bitSum + bits field) 0 fs"

text \<open>
  \<^verbatim>\<open>main\<close> of this variant: for every line the line itself, its fields, and whether
  \<^verbatim>\<open>console.error("wrong number of bits")\<close> was written for it.
\<close>

definition asm374_main ::
  "string \<Rightarrow> string list \<times> (error + (string \<times> field list \<times> bool) list)" where
  "asm374_main buff =
     (let lines = split buff (CHR 0x0A);
          instructions = map parseInstruction lines
      in case asm374_assembleAll instructions of
           (warned, Inl e) \<Rightarrow> (warned, Inl e)
         | (warned, Inr assembled) \<Rightarrow>
             (warned,
              Inr (map (\<lambda>i. (lines ! i, assembled ! i, bitSum (assembled ! i) \<noteq> 32))
                     [0..<length lines])))"

subsection \<open>Notions of the specification\<close>

text \<open>
  One line through the pipeline of \<^verbatim>\<open>main\<close>: parsed, assembled, packed.
\<close>

definition encodeLine :: "string \<Rightarrow> error + number" where
  "encodeLine line =
     thenE (snd (assembleInstruction (parseInstruction line))) (\<lambda>fs. Inr (bitsToNumber fs))"

text \<open>
  The packed word as the specification describes it: every field contributes its value
  modulo \<open>2 ^ width\<close>, shifted left by the total width of the fields after it.
\<close>

fun int_of :: "number \<Rightarrow> int" where
  "int_of (Num v) = v"
| "int_of NaN = 0"
| "int_of Undefined = 0"

fun spec_pack :: "field list \<Rightarrow> int" where
  "spec_pack [] = 0"
| "spec_pack (f # rest) =
     push_bit (sum_list (map bits rest)) (int_of (val f) mod 2 ^ bits f) + spec_pack rest"

text \<open>The range of values in which the code and the specification agree on a field.\<close>

definition field_in_range :: "field \<Rightarrow> bool" where
  "field_in_range f =
     (case val f of Num v \<Rightarrow> - (2 ^ bits f) \<le> v \<and> v < 2 ^ bits f | NaN \<Rightarrow> False
      | Undefined \<Rightarrow> False)"

text \<open>
  The number of operands that the case of a mnemonic reads from \<^verbatim>\<open>params\<close> (none for a
  mnemonic outside the table).
\<close>

definition operandsRead :: "string \<Rightarrow> nat" where
  "operandsRead mnemonic =
     (if mnemonic \<in> set [''ld'', ''ldi'', ''st''] then 2
      else if mnemonic \<in> set [''add'', ''sub'', ''and'', ''or'', ''shr'', ''shl'', ''ror'', ''rol''] then 3
      else if mnemonic \<in> set [''addi'', ''andi'', ''ori''] then 3
      else if mnemonic \<in> set [''mul'', ''div'', ''neg'', ''not''] then 2
      else if mnemonic \<in> set [''brmi'', ''brpl'', ''brzr'', ''brnz''] then 2
      else if mnemonic \<in> set [''jr'', ''jal'', ''in'', ''out'', ''mfhi'', ''mflo''] then 1
      else 0)"

definition enoughOperands :: "string \<Rightarrow> bool" where
  "enoughOperands line =
     (operandsRead (op (parseInstruction line)) \<le> length (params (parseInstruction line)))"

text \<open>
  The characters on which the strings of the model and those of JavaScript coincide, in
  code units and in what counts as white space.
\<close>

definition isAscii :: "char \<Rightarrow> bool" where
  "isAscii c = ((of_char c :: nat) < 128)"


section \<open>Operand resolvers\<close>

subsection \<open>What \<open>parseInt\<close> reads\<close>

lemma substr_from_1: "substr_from s 1 = drop 1 s"
  by (cases s) (auto simp add: substr_from_def substr_def Let_def min_def max_def)






















subsection \<open>The register resolver\<close>




subsection \<open>The immediate resolver\<close>




subsection \<open>The address resolver\<close>

text \<open>
  \<open>parseAddress\<close> resolves \<^verbatim>\<open>4(R2)\<close> to the base register 2 with offset 4, and the bare
  token \<^verbatim>\<open>$75\<close> to the base register 0 with offset 117.
\<close>

lemma parseAddress_examples:
  "parseAddress (Some ''4(R2)'')
     = Inr \<lparr>regField = \<lparr>bits = 4, val = Num 2\<rparr>, immediateOffset = Num 4\<rparr>
   \<and> parseAddress (Some ''$75'')
     = Inr \<lparr>regField = \<lparr>bits = 4, val = Num 0\<rparr>, immediateOffset = Num 117\<rparr>"
  by code_simp

text \<open>
  C5. The address resolver is to map \<^verbatim>\<open>4(R2)\<close> to base register 2 and offset 4, and the
  bare token \<^verbatim>\<open>$75\<close> to base register 0 and offset 117, the hexadecimal \<open>0x75\<close>. The
  \<open>parseAddress\<close> of the variant \<^verbatim>\<open>asm374.ts\<close> removes the \<^verbatim>\<open>$\<close> and reads the rest
  with no radix, that is in base 10: \<^verbatim>\<open>$75\<close> becomes 75, and \<^verbatim>\<open>$1D\<close>, an operand of the
  program the assembler is run on, becomes 1. Only \<^verbatim>\<open>4(R2)\<close> is read as claimed.
\<close>

theorem asm374_parseAddress_reads_decimal:
  "asm374_parseAddress (Some ''$75'')
     = Inr \<lparr>regField = \<lparr>bits = 4, val = Num 0\<rparr>, immediateOffset = Num 75\<rparr>
   \<and> asm374_parseAddress (Some ''$1D'')
     = Inr \<lparr>regField = \<lparr>bits = 4, val = Num 0\<rparr>, immediateOffset = Num 1\<rparr>
   \<and> asm374_parseAddress (Some ''4(R2)'')
     = Inr \<lparr>regField = \<lparr>bits = 4, val = Num 2\<rparr>, immediateOffset = Num 4\<rparr>"
  by code_simp

section \<open>Packing fields into a word\<close>

subsection \<open>The loop of \<open>bitsToNumber\<close> against the specification's sum\<close>

lemma foldl_bits: "foldl (\<lambda>s f. s + bits f) a fs = a + sum_list (map bits fs)"
  by (induction fs arbitrary: a) simp_all

lemma bitSum_sum_list: "bitSum fs = sum_list (map bits fs)"
  by (simp add: bitSum_def foldl_bits)

lemma spec_pack_append:
  "spec_pack (xs @ ys) = push_bit (sum_list (map bits ys)) (spec_pack xs) + spec_pack ys"
  by (induction xs) (simp_all add: push_bit_add push_bit_eq_mult power_add algebra_simps)

lemma spec_pack_snoc: "spec_pack (xs @ [f]) = push_bit (bits f) (spec_pack xs) + int_of (val f) mod 2 ^ bits f"
  by (simp add: spec_pack_append)

lemma spec_pack_nonneg: "0 \<le> spec_pack fs"
  by (induction fs) (simp_all add: push_bit_eq_mult)

lemma spec_pack_less: "spec_pack fs < 2 ^ sum_list (map bits fs)"
proof (induction fs)
  case Nil
  show ?case by simp
next
  case (Cons f rest)
  define S where "S = sum_list (map bits rest)"
  define u where "u = int_of (val f) mod 2 ^ bits f"
  have u: "u + 1 \<le> 2 ^ bits f"
  proof -
    have "(0::int) < 2 ^ bits f" by simp
    then have "int_of (val f) mod 2 ^ bits f < 2 ^ bits f" by (rule pos_mod_bound)
    then show ?thesis unfolding u_def by linarith
  qed
  have "u * 2 ^ S + spec_pack rest < u * 2 ^ S + 2 ^ S"
    using Cons.IH by (simp add: S_def)
  also have "\<dots> = (u + 1) * 2 ^ S"
    by (simp add: algebra_simps)
  also have "\<dots> \<le> 2 ^ bits f * 2 ^ S"
    using u by (rule mult_right_mono) simp
  finally show ?case
    by (simp add: push_bit_eq_mult power_add S_def u_def)
qed

lemma unsigned_val_in_range:
  assumes "field_in_range f"
  shows "(if ge0 (val f) then val f else num_add (Num (2 ^ bits f)) (val f))
         = Num (int_of (val f) mod 2 ^ bits f)"
proof (cases "val f")
  case (Num v)
  with assms have r: "- (2 ^ bits f) \<le> v" "v < 2 ^ bits f"
    by (simp_all add: field_in_range_def)
  show ?thesis
  proof (cases "0 \<le> v")
    case True
    with r Num show ?thesis by simp
  next
    case False
    with r have "v mod 2 ^ bits f = 2 ^ bits f + v"
      by (smt (verit) mod_add_self1 mod_pos_pos_trivial)
    with False Num show ?thesis by simp
  qed
next
  case NaN
  with assms show ?thesis by (simp add: field_in_range_def)
next
  case Undefined
  with assms show ?thesis by (simp add: field_in_range_def)
qed

lemma bitsToNumber_loop_in_range:
  "list_all field_in_range xs \<Longrightarrow>
   bitsToNumber_loop xs i (Num acc) = Num (acc + push_bit i (spec_pack (rev xs)))"
proof (induction xs arbitrary: i acc)
  case Nil
  show ?case by simp
next
  case (Cons x xs)
  from Cons.prems have x: "field_in_range x" and xs: "list_all field_in_range xs"
    by simp_all
  show ?case
    by (simp add: unsigned_val_in_range [OF x] Cons.IH [OF xs] spec_pack_snoc
        push_bit_add push_bit_eq_mult power_add algebra_simps Let_def)
qed

lemma bitsToNumber_in_range:
  "list_all field_in_range fs \<Longrightarrow> bitsToNumber fs = Num (spec_pack fs)"
  by (simp add: bitsToNumber_def bitsToNumber_loop_in_range)


lemma single_field_pack:
  "bitsToNumber [\<lparr>bits = w, val = Num v\<rparr>] = Num (if 0 \<le> v then v else 2 ^ w + v)"
  by (simp add: bitsToNumber_def)

text \<open>
  Up to 53 bits the packed number, and with it every partial sum of the loop, is an
  integer that JavaScript represents exactly.
\<close>

lemma bitsToNumber_below_2_53:
  assumes "list_all field_in_range fs" and "sum_list (map bits fs) \<le> 53"
  shows "\<exists>n. bitsToNumber fs = Num n \<and> 0 \<le> n \<and> n < 2 ^ 53"
proof -
  have "spec_pack fs < 2 ^ sum_list (map bits fs)"
    by (rule spec_pack_less)
  also have "(2::int) ^ sum_list (map bits fs) \<le> 2 ^ 53"
    using assms(2) by (intro power_increasing) simp_all
  finally have "spec_pack fs < 2 ^ 53" .
  with bitsToNumber_in_range [OF assms(1)] spec_pack_nonneg [of fs]
  show ?thesis by blast
qed

subsection \<open>The claims about packing\<close>

text \<open>
  C6, as stated, fails: \<open>bitsToNumber\<close> reduces no value modulo the width of its field. A
  non-negative value is added as it is, so the index 16 in a 4-bit register field (the
  encoder emits it for \<^verbatim>\<open>R16\<close>) contributes 16 where the specification's sum has
  \<open>16 mod 2 ^ 4 = 0\<close>.
\<close>

theorem bitsToNumber_pack_counterexample:
  "bitsToNumber [\<lparr>bits = 4, val = Num 16\<rparr>] = Num 16
   \<and> spec_pack [\<lparr>bits = 4, val = Num 16\<rparr>] = 0
   \<and> bitsToNumber [\<lparr>bits = 4, val = Num 16\<rparr>] \<noteq> Num (spec_pack [\<lparr>bits = 4, val = Num 16\<rparr>])"
  by (simp add: bitsToNumber_def)

text \<open>
  C6, amended. For every field sequence of at most 53 bits in all (the range in which
  JavaScript's numbers are exact) in which every value \<open>v\<close> of width \<open>w\<close> satisfies
  \<open>- 2 ^ w \<le> v < 2 ^ w\<close>, \<open>bitsToNumber\<close> returns the sum over the fields of
  \<open>v mod 2 ^ w\<close> shifted left by the total width of the fields after it (the running
  offset of the walk from the last field to the first). A negative value \<open>v\<close> of that
  range in a field of width \<open>w \<le> 53\<close> is stored as \<open>2 ^ w + v\<close>, and the first field (the
  opcode) of such a sequence is what is left of the word after dropping the bits of
  all the others: it occupies the most-significant end.
\<close>

theorem bitsToNumber_packs_in_range:
  "(list_all field_in_range fs \<and> sum_list (map bits fs) \<le> 53 \<longrightarrow>
      bitsToNumber fs = Num (spec_pack fs))
   \<and> (w \<le> 53 \<and> - (2 ^ w) \<le> v \<and> v < 0 \<longrightarrow>
        bitsToNumber [\<lparr>bits = w, val = Num v\<rparr>] = Num (2 ^ w + v))
   \<and> (list_all field_in_range (f # rest) \<and> sum_list (map bits (f # rest)) \<le> 53 \<longrightarrow>
        (\<exists>n. bitsToNumber (f # rest) = Num n
           \<and> drop_bit (sum_list (map bits rest)) n = int_of (val f) mod 2 ^ bits f))"
proof (intro conjI impI)
  assume "list_all field_in_range fs \<and> sum_list (map bits fs) \<le> 53"
  then show "bitsToNumber fs = Num (spec_pack fs)"
    by (simp add: bitsToNumber_in_range)
next
  assume "w \<le> 53 \<and> - (2 ^ w) \<le> v \<and> v < 0"
  then show "bitsToNumber [\<lparr>bits = w, val = Num v\<rparr>] = Num (2 ^ w + v)"
    by (simp add: single_field_pack)
next
  assume "list_all field_in_range (f # rest) \<and> sum_list (map bits (f # rest)) \<le> 53"
  then have a: "list_all field_in_range (f # rest)" by simp
  define S where "S = sum_list (map bits rest)"
  define u where "u = int_of (val f) mod 2 ^ bits f"
  have r: "0 \<le> spec_pack rest" "spec_pack rest < 2 ^ S"
    using spec_pack_nonneg [of rest] spec_pack_less [of rest] by (simp_all add: S_def)
  have "(u * 2 ^ S + spec_pack rest) div 2 ^ S = u"
    using r by (simp add: div_pos_pos_trivial)
  then have "drop_bit S (spec_pack (f # rest)) = u"
    by (simp add: drop_bit_eq_div push_bit_eq_mult S_def u_def)
  with bitsToNumber_in_range [OF a]
  show "\<exists>n. bitsToNumber (f # rest) = Num n
           \<and> drop_bit (sum_list (map bits rest)) n = int_of (val f) mod 2 ^ bits f"
    by (simp add: S_def u_def)
qed

theorem bitsToNumber_packs_in_range_witness:
  "list_all field_in_range
     [\<lparr>bits = 5, val = Num 1\<rparr>, \<lparr>bits = 4, val = Num 2\<rparr>,
      \<lparr>bits = 4, val = Num 2\<rparr>, \<lparr>bits = 19, val = Num (- 2)\<rparr>]
   \<and> sum_list (map bits
       [\<lparr>bits = 5, val = Num 1\<rparr>, \<lparr>bits = 4, val = Num 2\<rparr>,
        \<lparr>bits = 4, val = Num 2\<rparr>, \<lparr>bits = 19, val = Num (- 2)\<rparr>]) = 32
   \<and> bitsToNumber
       [\<lparr>bits = 5, val = Num 1\<rparr>, \<lparr>bits = 4, val = Num 2\<rparr>,
        \<lparr>bits = 4, val = Num 2\<rparr>, \<lparr>bits = 19, val = Num (- 2)\<rparr>]
     = Num (spec_pack
       [\<lparr>bits = 5, val = Num 1\<rparr>, \<lparr>bits = 4, val = Num 2\<rparr>,
        \<lparr>bits = 4, val = Num 2\<rparr>, \<lparr>bits = 19, val = Num (- 2)\<rparr>])
   \<and> spec_pack
       [\<lparr>bits = 5, val = Num 1\<rparr>, \<lparr>bits = 4, val = Num 2\<rparr>,
        \<lparr>bits = 4, val = Num 2\<rparr>, \<lparr>bits = 19, val = Num (- 2)\<rparr>] = 152567806
   \<and> - (2 ^ 19) \<le> (- 2 :: int)
   \<and> bitsToNumber [\<lparr>bits = 19, val = Num (- 2)\<rparr>] = Num (2 ^ 19 + - 2)
   \<and> drop_bit 27 (152567806 :: int) = 1"
  using bitsToNumber_packs_in_range
    [of "[\<lparr>bits = 5, val = Num 1\<rparr>, \<lparr>bits = 4, val = Num 2\<rparr>,
          \<lparr>bits = 4, val = Num 2\<rparr>, \<lparr>bits = 19, val = Num (- 2)\<rparr>]"
        19 "- 2" "\<lparr>bits = 5, val = Num 1\<rparr>"
        "[\<lparr>bits = 4, val = Num 2\<rparr>, \<lparr>bits = 4, val = Num 2\<rparr>,
          \<lparr>bits = 19, val = Num (- 2)\<rparr>]"]
  by (simp add: field_in_range_def drop_bit_eq_div)

text \<open>
  C10. For every field sequence whose widths sum to 32 and whose values are all within
  \<open>- 2 ^ w \<le> v < 2 ^ w\<close> for their width \<open>w\<close>, \<open>bitsToNumber\<close> returns an integer in
  \<open>[0, 2 ^ 32)\<close>. No field is masked, so the bound needs the range: the one field of
  width 32 and value \<open>2 ^ 32\<close> packs to \<open>2 ^ 32\<close>.
\<close>

theorem bitsToNumber_32_bit_bound:
  "(list_all field_in_range fs \<and> sum_list (map bits fs) = 32 \<longrightarrow>
      (\<exists>n. bitsToNumber fs = Num n \<and> 0 \<le> n \<and> n < 2 ^ 32))
   \<and> sum_list (map bits [\<lparr>bits = 32, val = Num (2 ^ 32)\<rparr>]) = 32
   \<and> bitsToNumber [\<lparr>bits = 32, val = Num (2 ^ 32)\<rparr>] = Num (2 ^ 32)"
proof (intro conjI impI)
  assume a: "list_all field_in_range fs \<and> sum_list (map bits fs) = 32"
  then have "bitsToNumber fs = Num (spec_pack fs)"
    by (simp add: bitsToNumber_in_range)
  moreover have "0 \<le> spec_pack fs"
    by (rule spec_pack_nonneg)
  moreover have "spec_pack fs < 2 ^ 32"
    using spec_pack_less [of fs] a by simp
  ultimately show "\<exists>n. bitsToNumber fs = Num n \<and> 0 \<le> n \<and> n < 2 ^ 32"
    by blast
qed (simp_all add: single_field_pack)

theorem bitsToNumber_32_bit_bound_witness:
  "list_all field_in_range
     [\<lparr>bits = 5, val = Num 18\<rparr>, \<lparr>bits = 4, val = Num 3\<rparr>, \<lparr>bits = 2, val = Num 3\<rparr>,
      \<lparr>bits = 2, val = Num 0\<rparr>, \<lparr>bits = 19, val = Num (- 3)\<rparr>]
   \<and> sum_list (map bits
     [\<lparr>bits = 5, val = Num 18\<rparr>, \<lparr>bits = 4, val = Num 3\<rparr>, \<lparr>bits = 2, val = Num 3\<rparr>,
      \<lparr>bits = 2, val = Num 0\<rparr>, \<lparr>bits = 19, val = Num (- 3)\<rparr>]) = 32
   \<and> (\<exists>n. bitsToNumber
     [\<lparr>bits = 5, val = Num 18\<rparr>, \<lparr>bits = 4, val = Num 3\<rparr>, \<lparr>bits = 2, val = Num 3\<rparr>,
      \<lparr>bits = 2, val = Num 0\<rparr>, \<lparr>bits = 19, val = Num (- 3)\<rparr>] = Num n
        \<and> 0 \<le> n \<and> n < 2 ^ 32)"
  using bitsToNumber_32_bit_bound
    [of "[\<lparr>bits = 5, val = Num 18\<rparr>, \<lparr>bits = 4, val = Num 3\<rparr>, \<lparr>bits = 2, val = Num 3\<rparr>,
      \<lparr>bits = 2, val = Num 0\<rparr>, \<lparr>bits = 19, val = Num (- 3)\<rparr>]"]
  by (simp add: field_in_range_def)

text \<open>
  C7. For every integer \<open>v\<close> with \<open>- 2 ^ 18 \<le> v < 2 ^ 18\<close>, packing \<open>v\<close> into a 19-bit
  field gives a 19-bit pattern \<open>p\<close> (\<open>0 \<le> p < 2 ^ 19\<close>) whose reading as a
  two's-complement integer is \<open>v\<close> again. The reading is the library's: sign extension
  from bit 18 (\<open>signed_take_bit 18\<close>), which is \<open>sint\<close> on the 19-bit word.
\<close>

theorem immediate19_roundtrip:
  assumes "- (2 ^ 18) \<le> v" and "v < 2 ^ 18"
  shows "\<exists>p. bitsToNumber [\<lparr>bits = 19, val = Num v\<rparr>] = Num p \<and> 0 \<le> p \<and> p < 2 ^ 19
           \<and> signed_take_bit 18 p = v \<and> sint (word_of_int p :: 19 word) = v"
proof -
  define p where "p = (if 0 \<le> v then v else 2 ^ 19 + v)"
  have pack: "bitsToNumber [\<lparr>bits = 19, val = Num v\<rparr>] = Num p"
    by (simp add: single_field_pack p_def)
  have range: "0 \<le> p" "p < 2 ^ 19"
    using assms by (simp_all add: p_def)
  have "p mod 2 ^ 19 = v mod 2 ^ 19"
    by (simp add: p_def)
  then have "take_bit 19 p = take_bit 19 v"
    by (simp add: take_bit_eq_mod)
  then have "signed_take_bit 18 p = signed_take_bit 18 v"
    by (simp add: signed_take_bit_eq_iff_take_bit_eq)
  also have "\<dots> = v"
    using assms by (simp add: signed_take_bit_int_eq_self)
  finally have s: "signed_take_bit 18 p = v" .
  then have "sint (word_of_int p :: 19 word) = v"
    by (simp add: sint_sbintrunc')
  with pack range s show ?thesis by blast
qed

theorem immediate19_roundtrip_witness:
  "- (2 ^ 18) \<le> (- 2 :: int) \<and> (- 2 :: int) < 2 ^ 18
   \<and> (\<exists>p. bitsToNumber [\<lparr>bits = 19, val = Num (- 2)\<rparr>] = Num p \<and> 0 \<le> p \<and> p < 2 ^ 19
           \<and> signed_take_bit 18 p = - 2 \<and> sint (word_of_int p :: 19 word) = - 2)"
  using immediate19_roundtrip [of "- 2"] by simp

text \<open>
  The same holds for the 19-bit immediate as the last field of a whole word of at most
  53 bits: sign extension of the word from bit 18 returns the immediate, whatever
  in-range fields precede it.
\<close>

lemma immediate19_in_word:
  assumes fs: "list_all field_in_range fs" and v: "- (2 ^ 18) \<le> v" "v < 2 ^ 18"
    and width: "sum_list (map bits fs) + 19 \<le> 53"
  shows "\<exists>n. bitsToNumber (fs @ [\<lparr>bits = 19, val = Num v\<rparr>]) = Num n
           \<and> signed_take_bit 18 n = v"
proof -
  define n where "n = spec_pack (fs @ [\<lparr>bits = 19, val = Num v\<rparr>])"
  have "field_in_range \<lparr>bits = 19, val = Num v\<rparr>"
    using v by (simp add: field_in_range_def)
  with fs have "bitsToNumber (fs @ [\<lparr>bits = 19, val = Num v\<rparr>]) = Num n"
    by (simp add: bitsToNumber_in_range n_def)
  moreover have "n = spec_pack fs * 2 ^ 19 + v mod 2 ^ 19"
    by (simp add: n_def spec_pack_snoc push_bit_eq_mult)
  then have "n mod 2 ^ 19 = v mod 2 ^ 19"
    by simp
  then have "take_bit 19 n = take_bit 19 v"
    by (simp add: take_bit_eq_mod)
  then have "signed_take_bit 18 n = signed_take_bit 18 v"
    by (simp add: signed_take_bit_eq_iff_take_bit_eq)
  then have "signed_take_bit 18 n = v"
    using v by (simp add: signed_take_bit_int_eq_self)
  ultimately show ?thesis by blast
qed

section \<open>The encoder\<close>

subsection \<open>Results, table keys and missing operands\<close>

lemma thenE_Inr_iff: "thenE r k = Inr y \<longleftrightarrow> (\<exists>x. r = Inr x \<and> k x = Inr y)"
  by (cases r) (simp_all add: thenE_def)

lemma thenE_Inl: "thenE (Inl e) k = Inl e"
  by (simp add: thenE_def)

lemma thenE_Inr: "thenE (Inr x) k = k x"
  by (simp add: thenE_def)

lemma fieldFromRegister_bits: "fieldFromRegister x = Inr f \<Longrightarrow> bits f = 4"
  by (cases x) (auto simp add: fieldFromRegister_def)

lemma parseAddress_bits: "parseAddress x = Inr a \<Longrightarrow> bits (regField a) = 4"
  by (cases x)
     (auto simp add: parseAddress_def parseImmediate_def thenE_Inr_iff Let_def
        dest: fieldFromRegister_bits split: if_splits)

lemma asm374_parseAddress_bits: "asm374_parseAddress x = Inr a \<Longrightarrow> bits (regField a) = 4"
  by (cases x)
     (auto simp add: asm374_parseAddress_def thenE_Inr_iff Let_def
        dest: fieldFromRegister_bits split: if_splits)

lemma OP_TABLE_keys:
  "map_of OP_TABLE k \<noteq> None \<longleftrightarrow>
     k \<in> set [''ld'', ''ldi'', ''st'', ''add'', ''sub'', ''and'', ''or'', ''shr'', ''shl'', ''ror'',
              ''rol'', ''addi'', ''andi'', ''ori'', ''mul'', ''div'', ''neg'', ''not'', ''brmi'',
              ''brpl'', ''brzr'', ''brnz'', ''jr'', ''jal'', ''in'', ''out'', ''mfhi'', ''mflo'',
              ''nop'', ''halt'']"
  by (auto simp add: OP_TABLE_def)

lemma fieldFromRegister_at_index:
  "fieldFromRegister (at_index ps k) =
     (if k < length ps then Inr \<lparr>bits = 4, val = parseInt (drop 1 (ps ! k)) 0\<rparr>
      else Inl TypeError)"
  by (simp add: at_index_def fieldFromRegister_def substr_from_1)

lemma parseImmediate_Some: "\<exists>v. parseImmediate (Some s) = Inr v"
  by (simp add: parseImmediate_def)

lemma parseAddress_Some:
  "\<exists>r v. parseAddress (Some s) = Inr \<lparr>regField = \<lparr>bits = 4, val = r\<rparr>, immediateOffset = v\<rparr>"
  by (simp add: parseAddress_def parseImmediate_def fieldFromRegister_def thenE_Inr Let_def)

lemma parseImmediate_at_index:
  "parseImmediate (at_index ps k) =
     (if k < length ps then Inr (projr (parseImmediate (Some (ps ! k)))) else Inl TypeError)"
  using parseImmediate_Some [of "ps ! k"]
  by (auto simp add: at_index_def) (simp add: parseImmediate_def)

lemma parseAddress_at_index:
  "parseAddress (at_index ps k) =
     (if k < length ps then Inr (projr (parseAddress (Some (ps ! k)))) else Inl TypeError)"
  using parseAddress_Some [of "ps ! k"]
  by (auto simp add: at_index_def) (simp add: parseAddress_def)

text \<open>
  A mnemonic outside the table is answered by a warning and an empty field list; a
  mnemonic of the table raises exactly when \<^verbatim>\<open>params\<close> is shorter than what its case reads.
\<close>

lemma assembleInstruction_unknown:
  assumes "map_of OP_TABLE (op i) = None"
  shows "assembleInstruction i = ([''Unrecognized opcode: '' @ op i], Inr [])"
proof -
  from assms
  have "\<not> op i \<in> set [''ld'', ''ldi'', ''st'', ''add'', ''sub'', ''and'', ''or'', ''shr'', ''shl'', ''ror'',
              ''rol'', ''addi'', ''andi'', ''ori'', ''mul'', ''div'', ''neg'', ''not'', ''brmi'',
              ''brpl'', ''brzr'', ''brnz'', ''jr'', ''jal'', ''in'', ''out'', ''mfhi'', ''mflo'',
              ''nop'', ''halt'']"
    using OP_TABLE_keys [of "op i"] by simp
  then show ?thesis
    by (simp add: assembleInstruction_def Let_def)
qed

lemma operandsRead_unknown: "map_of OP_TABLE m = None \<Longrightarrow> operandsRead m = 0"
  using OP_TABLE_keys [of m] by (auto simp add: operandsRead_def)

lemma assembleInstruction_raises_known:
  assumes "op i \<in> set [''ld'', ''ldi'', ''st'', ''add'', ''sub'', ''and'', ''or'', ''shr'', ''shl'', ''ror'',
              ''rol'', ''addi'', ''andi'', ''ori'', ''mul'', ''div'', ''neg'', ''not'', ''brmi'',
              ''brpl'', ''brzr'', ''brnz'', ''jr'', ''jal'', ''in'', ''out'', ''mfhi'', ''mflo'',
              ''nop'', ''halt'']"
  shows "isl (snd (assembleInstruction i)) \<longleftrightarrow> length (params i) < operandsRead (op i)"
  using assms
  by (auto simp add: assembleInstruction_def operandsRead_def Let_def thenE_Inl thenE_Inr
        fieldFromRegister_at_index parseImmediate_at_index parseAddress_at_index)

lemma assembleInstruction_raises_iff:
  "isl (snd (assembleInstruction i)) \<longleftrightarrow> length (params i) < operandsRead (op i)"
proof (cases "map_of OP_TABLE (op i) = None")
  case True
  then show ?thesis
    by (simp add: assembleInstruction_unknown operandsRead_unknown)
next
  case False
  then show ?thesis
    by (intro assembleInstruction_raises_known) (simp only: OP_TABLE_keys)
qed

subsection \<open>Field widths\<close>

text \<open>
  In the full assembler every mnemonic of the table, given the operands its case reads,
  is assembled into fields whose widths sum to 32.
\<close>

lemma assembleInstruction_bitSum:
  assumes "map_of OP_TABLE (op i) \<noteq> None" and "snd (assembleInstruction i) = Inr fs"
  shows "bitSum fs = 32"
proof -
  from assms(1) have k: "op i \<in> set [''ld'', ''ldi'', ''st'', ''add'', ''sub'', ''and'', ''or'', ''shr'', ''shl'', ''ror'',
              ''rol'', ''addi'', ''andi'', ''ori'', ''mul'', ''div'', ''neg'', ''not'', ''brmi'',
              ''brpl'', ''brzr'', ''brnz'', ''jr'', ''jal'', ''in'', ''out'', ''mfhi'', ''mflo'',
              ''nop'', ''halt'']"
    by (simp only: OP_TABLE_keys)
  from k assms(2) show ?thesis
    by (auto simp add: assembleInstruction_def Let_def thenE_Inr_iff bitSum_def
          dest!: fieldFromRegister_bits parseAddress_bits)
qed

lemma assembleInstruction_32_bits:
  assumes "map_of OP_TABLE (op i) \<noteq> None" and "operandsRead (op i) \<le> length (params i)"
  shows "\<exists>fs. snd (assembleInstruction i) = Inr fs \<and> bitSum fs = 32"
proof -
  from assms(2) have "\<not> isl (snd (assembleInstruction i))"
    by (simp add: assembleInstruction_raises_iff)
  then obtain fs where fs: "snd (assembleInstruction i) = Inr fs"
    by (cases "snd (assembleInstruction i)") simp_all
  with assms(1) have "bitSum fs = 32" by (rule assembleInstruction_bitSum)
  with fs show ?thesis by blast
qed

text \<open>
  In the variant \<^verbatim>\<open>asm374.ts\<close> the sum is 32 for every mnemonic of the table but the four
  branches, whose case pushes the opcode, 4 padding bits, the 2-bit condition and the
  19-bit immediate: 30 bits.
\<close>

lemma asm374_assembleInstruction_bitSum:
  assumes "map_of OP_TABLE (op i) \<noteq> None" and "snd (asm374_assembleInstruction i) = Inr fs"
  shows "bitSum fs = (if op i \<in> set [''brmi'', ''brpl'', ''brzr'', ''brnz''] then 30 else 32)"
proof -
  from assms(1) have k: "op i \<in> set [''ld'', ''ldi'', ''st'', ''add'', ''sub'', ''and'', ''or'', ''shr'', ''shl'', ''ror'',
              ''rol'', ''addi'', ''andi'', ''ori'', ''mul'', ''div'', ''neg'', ''not'', ''brmi'',
              ''brpl'', ''brzr'', ''brnz'', ''jr'', ''jal'', ''in'', ''out'', ''mfhi'', ''mflo'',
              ''nop'', ''halt'']"
    by (simp only: OP_TABLE_keys)
  from k assms(2) show ?thesis
    by (auto simp add: asm374_assembleInstruction_def Let_def thenE_Inr_iff bitSum_def
          dest!: fieldFromRegister_bits asm374_parseAddress_bits)
qed

text \<open>
  C2. For every mnemonic of the table the encoder is to emit fields whose widths sum to
  exactly 32. The encoder of \<^verbatim>\<open>asm374.ts\<close> emits 30 bits for \<^verbatim>\<open>brmi R3, 3\<close>, a line of the
  program it is run on, and the bit check of its own \<^verbatim>\<open>main\<close> reports the line
  (\<^verbatim>\<open>wrong number of bits\<close>, the \<open>True\<close> below).
\<close>

theorem asm374_branch_bit_count:
  "map_of OP_TABLE ''brmi'' = Some 18
   \<and> bitSum (projr (snd (asm374_assembleInstruction (parseInstruction ''brmi R3, 3'')))) = 30
   \<and> asm374_main ''brmi R3, 3''
       = ([], Inr [(''brmi R3, 3'',
                    [\<lparr>bits = 5, val = Num 18\<rparr>, \<lparr>bits = 4, val = Num 0\<rparr>,
                     \<lparr>bits = 2, val = Num 3\<rparr>, \<lparr>bits = 19, val = NaN\<rparr>],
                    True)])"
  by code_simp

subsection \<open>The branch layout\<close>

text \<open>
  In the full assembler the four branch mnemonics share the opcode 18 and differ in the
  2-bit condition only, which follows the register field; \<^verbatim>\<open>brmi R3, 3\<close> has the register
  field 3, the condition 3, two reserved bits and the immediate 3.
\<close>

lemma branch_layout:
  assumes "m \<in> set [''brzr'', ''brnz'', ''brpl'', ''brmi'']"
  shows "snd (assembleInstruction \<lparr>op = m, params = ps\<rparr>) =
           thenE (fieldFromRegister (at_index ps 0)) (\<lambda>ra.
           thenE (parseImmediate (at_index ps 1)) (\<lambda>v.
             Inr [\<lparr>bits = 5, val = Num 18\<rparr>, ra, \<lparr>bits = 2, val = lookup BR_TABLE m\<rparr>,
                  \<lparr>bits = 2, val = Num 0\<rparr>, \<lparr>bits = 19, val = v\<rparr>]))"
  using assms by (auto simp add: assembleInstruction_def Let_def lookup_def OP_TABLE_def)

lemma branch_subcodes:
  "map (lookup BR_TABLE) [''brzr'', ''brnz'', ''brpl'', ''brmi''] = [Num 0, Num 1, Num 2, Num 3]
   \<and> map (lookup OP_TABLE) [''brzr'', ''brnz'', ''brpl'', ''brmi'']
       = [Num 18, Num 18, Num 18, Num 18]"
  by (simp add: lookup_def BR_TABLE_def OP_TABLE_def)

lemma brmi_R3_3_fields:
  "snd (assembleInstruction (parseInstruction ''brmi R3, 3'')) =
     Inr [\<lparr>bits = 5, val = Num 18\<rparr>, \<lparr>bits = 4, val = Num 3\<rparr>, \<lparr>bits = 2, val = Num 3\<rparr>,
          \<lparr>bits = 2, val = Num 0\<rparr>, \<lparr>bits = 19, val = Num 3\<rparr>]"
  by code_simp

text \<open>
  C3. Encoding \<^verbatim>\<open>brmi R3, 3\<close> is to emit, after the branch opcode 18, the register field
  3, the condition 3, reserved bits and the immediate 3. The encoder of \<^verbatim>\<open>asm374.ts\<close>
  emits the opcode 18, four padding bits of value 0 in place of the register, the
  condition 3, no reserved bits, and as the immediate what \<^verbatim>\<open>Number.parseInt\<close> reads in
  the first operand \<^verbatim>\<open>R3\<close>: \<open>NaN\<close>. It differs from what the full assembler emits.
\<close>

theorem asm374_brmi_R3_3_fields:
  "snd (asm374_assembleInstruction (parseInstruction ''brmi R3, 3'')) =
     Inr [\<lparr>bits = 5, val = Num 18\<rparr>, \<lparr>bits = 4, val = Num 0\<rparr>, \<lparr>bits = 2, val = Num 3\<rparr>,
          \<lparr>bits = 19, val = NaN\<rparr>]
   \<and> snd (asm374_assembleInstruction (parseInstruction ''brmi R3, 3''))
       \<noteq> snd (assembleInstruction (parseInstruction ''brmi R3, 3''))"
  by code_simp

section \<open>End-to-end encodings\<close>

text \<open>
  C1. The line \<^verbatim>\<open>ldi R3, $87\<close> is assembled into the opcode field 1 (5 bits), Ra = 3
  (4 bits), Rb = 0 (4 bits) and the immediate 135 (19 bits), and these fields are packed
  into the number \<open>1 << 27 | 3 << 23 | 0 << 19 | 135\<close>.
\<close>

theorem ldi_R3_87_encoding:
  "snd (assembleInstruction (parseInstruction ''ldi R3, $87'')) =
     Inr [\<lparr>bits = 5, val = Num 1\<rparr>, \<lparr>bits = 4, val = Num 3\<rparr>,
          \<lparr>bits = 4, val = Num 0\<rparr>, \<lparr>bits = 19, val = Num 135\<rparr>]
   \<and> encodeLine ''ldi R3, $87''
       = Inr (Num (push_bit 27 1 OR push_bit 23 3 OR push_bit 19 0 OR 135))"
  by code_simp

section \<open>The program\<close>

subsection \<open>Assembling every instruction of the file\<close>

lemma assembleAll_no_raise:
  assumes "list_all (\<lambda>i. \<not> isl (snd (assembleInstruction i))) is"
  shows "assembleAll is =
           (concat (map (\<lambda>i. fst (assembleInstruction i)) is),
            Inr (map (\<lambda>i. projr (snd (assembleInstruction i))) is))"
  using assms
proof (induction "is")
  case Nil
  show ?case by simp
next
  case (Cons i rest)
  obtain w r where a: "assembleInstruction i = (w, r)" by (cases "assembleInstruction i")
  with Cons.prems obtain fs where r: "r = Inr fs" by (cases r) simp_all
  from Cons have "assembleAll rest =
           (concat (map (\<lambda>i. fst (assembleInstruction i)) rest),
            Inr (map (\<lambda>i. projr (snd (assembleInstruction i))) rest))"
    by simp
  with a r show ?case by simp
qed

lemma assembleAll_raise:
  assumes "\<not> list_all (\<lambda>i. \<not> isl (snd (assembleInstruction i))) is"
  shows "\<exists>w e. assembleAll is = (w, Inl e)"
  using assms
proof (induction "is")
  case Nil
  then show ?case by simp
next
  case (Cons i rest)
  obtain w r where a: "assembleInstruction i = (w, r)" by (cases "assembleInstruction i")
  show ?case
  proof (cases r)
    case (Inl e)
    with a show ?thesis by simp
  next
    case (Inr fs)
    with a Cons.prems have "\<not> list_all (\<lambda>i. \<not> isl (snd (assembleInstruction i))) rest"
      by simp
    from Cons.IH [OF this] obtain ws e where "assembleAll rest = (ws, Inl e)" by blast
    with a Inr show ?thesis by simp
  qed
qed

text \<open>
  C9, as stated, fails: a line with a known mnemonic and a missing operand makes
  \<^verbatim>\<open>assembleInstruction\<close> call a method of \<open>undefined\<close>; the \<open>TypeError\<close> is caught nowhere
  and ends \<^verbatim>\<open>main\<close> before any line is reported, the well-formed \<^verbatim>\<open>nop\<close> after it included.
\<close>

theorem main_counterexample:
  "main ''ldi R3\<newline>nop'' = ([], Inl TypeError)
   \<and> encodeLine ''nop'' = Inr (Num 3355443200)"
  by code_simp

text \<open>
  C9, amended. For every ASCII input file in which every line supplies the operands
  that the case of its mnemonic reads, processing is not aborted: \<^verbatim>\<open>main\<close> reports every
  line with the number that parsing, assembling and packing that line alone gives, and
  the console holds the warnings of the lines in order. An ASCII line with an unknown
  mnemonic is such a line: it is reported by the warning \<^verbatim>\<open>Unrecognized opcode\<close>, not
  dropped, and encoded as 0.
\<close>

theorem main_best_effort:
  "(list_all isAscii buff \<and> list_all enoughOperands (split buff (CHR 0x0A)) \<longrightarrow>
      (\<exists>rows. main buff =
          (concat (map (\<lambda>l. fst (assembleInstruction (parseInstruction l)))
                     (split buff (CHR 0x0A))),
           Inr rows)
        \<and> list_all2 (\<lambda>l row. fst row = lineNoComment l \<and> encodeLine l = Inr (snd row))
            (split buff (CHR 0x0A)) rows))
   \<and> (list_all isAscii line \<and> map_of OP_TABLE (op (parseInstruction line)) = None \<longrightarrow>
        enoughOperands line
        \<and> fst (assembleInstruction (parseInstruction line))
            = [''Unrecognized opcode: '' @ op (parseInstruction line)]
        \<and> encodeLine line = Inr (Num 0))"
proof (intro conjI impI)
  define lines where "lines = split buff (CHR 0x0A)"
  define rows where
    "rows = map (\<lambda>l. (lineNoComment l,
                       bitsToNumber (projr (snd (assembleInstruction (parseInstruction l))))))
              lines"
  assume "list_all isAscii buff \<and> list_all enoughOperands (split buff (CHR 0x0A))"
  then have "list_all enoughOperands (split buff (CHR 0x0A))" by simp
  then have ok: "list_all (\<lambda>l. \<not> isl (snd (assembleInstruction (parseInstruction l)))) lines"
    by (simp add: lines_def list_all_iff enoughOperands_def assembleInstruction_raises_iff not_less)
  then have "list_all (\<lambda>i. \<not> isl (snd (assembleInstruction i))) (map parseInstruction lines)"
    by (simp add: list_all_iff)
  from assembleAll_no_raise [OF this]
  have all: "assembleAll (map parseInstruction lines) =
          (concat (map (\<lambda>l. fst (assembleInstruction (parseInstruction l))) lines),
           Inr (map (\<lambda>l. projr (snd (assembleInstruction (parseInstruction l)))) lines))"
    by (simp add: comp_def)
  have "map (\<lambda>i. (lineNoComment (lines ! i),
                    map bitsToNumber
                      (map (\<lambda>l. projr (snd (assembleInstruction (parseInstruction l)))) lines) ! i))
          [0..<length lines] = rows"
    by (rule nth_equalityI) (simp_all add: rows_def)
  with all have m: "main buff =
          (concat (map (\<lambda>l. fst (assembleInstruction (parseInstruction l))) lines), Inr rows)"
    by (simp add: main_def Let_def lines_def [symmetric])
  have "list_all2 (\<lambda>l row. fst row = lineNoComment l \<and> encodeLine l = Inr (snd row)) lines rows"
    unfolding list_all2_conv_all_nth
  proof (intro conjI allI impI)
    show "length lines = length rows" by (simp add: rows_def)
  next
    fix k assume "k < length lines"
    then show "fst (rows ! k) = lineNoComment (lines ! k)" by (simp add: rows_def)
  next
    fix k assume k: "k < length lines"
    with ok have "\<not> isl (snd (assembleInstruction (parseInstruction (lines ! k))))"
      by (simp add: list_all_length)
    then obtain fs where "snd (assembleInstruction (parseInstruction (lines ! k))) = Inr fs"
      by (cases "snd (assembleInstruction (parseInstruction (lines ! k)))") simp_all
    with k show "encodeLine (lines ! k) = Inr (snd (rows ! k))"
      by (simp add: rows_def encodeLine_def thenE_Inr)
  qed
  with m show "\<exists>rows. main buff =
          (concat (map (\<lambda>l. fst (assembleInstruction (parseInstruction l)))
                     (split buff (CHR 0x0A))),
           Inr rows)
        \<and> list_all2 (\<lambda>l row. fst row = lineNoComment l \<and> encodeLine l = Inr (snd row))
            (split buff (CHR 0x0A)) rows"
    unfolding lines_def by blast
next
  assume "list_all isAscii line \<and> map_of OP_TABLE (op (parseInstruction line)) = None"
  then have u: "map_of OP_TABLE (op (parseInstruction line)) = None" by simp
  then show "enoughOperands line"
    by (simp add: enoughOperands_def operandsRead_unknown)
  from u show "fst (assembleInstruction (parseInstruction line))
            = [''Unrecognized opcode: '' @ op (parseInstruction line)]"
    by (simp add: assembleInstruction_unknown)
  from u show "encodeLine line = Inr (Num 0)"
    by (simp add: encodeLine_def assembleInstruction_unknown thenE_Inr bitsToNumber_def)
qed

theorem main_best_effort_witness:
  "list_all isAscii ''ldi R3, $87\<newline>foo R1\<newline>nop''
   \<and> list_all enoughOperands (split ''ldi R3, $87\<newline>foo R1\<newline>nop'' (CHR 0x0A))
   \<and> main ''ldi R3, $87\<newline>foo R1\<newline>nop''
       = ([''Unrecognized opcode: foo''],
          Inr [(''ldi R3, $87'', Num 159383687), (''foo R1'', Num 0), (''nop'', Num 3355443200)])
   \<and> list_all isAscii ''foo R1''
   \<and> map_of OP_TABLE (op (parseInstruction ''foo R1'')) = None
   \<and> encodeLine ''foo R1'' = Inr (Num 0)"
proof -
  have a: "list_all isAscii ''ldi R3, $87\<newline>foo R1\<newline>nop''"
    "list_all enoughOperands (split ''ldi R3, $87\<newline>foo R1\<newline>nop'' (CHR 0x0A))"
    by code_simp+
  have b: "main ''ldi R3, $87\<newline>foo R1\<newline>nop''
       = ([''Unrecognized opcode: foo''],
          Inr [(''ldi R3, $87'', Num 159383687), (''foo R1'', Num 0), (''nop'', Num 3355443200)])"
    by code_simp
  have c: "list_all isAscii ''foo R1''"
    "map_of OP_TABLE (op (parseInstruction ''foo R1'')) = None"
    by code_simp+
  from main_best_effort [of "''ldi R3, $87\<newline>foo R1\<newline>nop''" "''foo R1''"] a b c
  show ?thesis by blast
qed

text \<open>
  Conversely, one line of an ASCII file that lacks an operand leaves the whole file
  without a report.
\<close>

lemma main_aborts:
  assumes "list_all isAscii buff" and "\<not> list_all enoughOperands (split buff (CHR 0x0A))"
  shows "\<exists>warned e. main buff = (warned, Inl e)"
proof -
  from assms
  have "\<not> list_all (\<lambda>i. \<not> isl (snd (assembleInstruction i)))
            (map parseInstruction (split buff (CHR 0x0A)))"
    by (simp add: list_all_iff enoughOperands_def assembleInstruction_raises_iff not_less)
  from assembleAll_raise [OF this] obtain w e
    where "assembleAll (map parseInstruction (split buff (CHR 0x0A))) = (w, Inl e)" by blast
  then show ?thesis by (simp add: main_def Let_def)
qed

end
